theory Spec2Isabelle
  imports Main "HOL-Library.Multiset"
begin

section \<open>Partitioned parallel queries: the planner, the executor and the merge\<close>

text \<open>
  The repository holds two variants of one pipeline. \<^verbatim>\<open>oracle-multithreading.py\<close>
  (class \<^verbatim>\<open>OracleThreadedQuery\<close>) splits a query by ROWNUM ranges;
  \<^verbatim>\<open>oracle-multithreading-by-year.py\<close> (class \<^verbatim>\<open>OracleYearPartitionedQuery\<close>)
  splits it by calendar year. Python integers are unbounded, so they are \<open>int\<close>;
  \<^verbatim>\<open>//\<close> is floor division, which is \<open>div\<close> on \<open>int\<close>, except that Python
  raises where the divisor is zero. \<^verbatim>\<open>DBConfig\<close> and \<^verbatim>\<open>get_connection\<close> only
  open the connection; what the database answers is a parameter of the model.
\<close>

subsection \<open>Exceptions\<close>

text \<open>
  \<^verbatim>\<open>ZeroDivisionError\<close> comes from \<^verbatim>\<open>//\<close> and \<^verbatim>\<open>/\<close>, \<^verbatim>\<open>ValueError\<close> from
  \<^verbatim>\<open>ThreadPoolExecutor(max_workers=k)\<close> with \<open>k \<le> 0\<close>, and \<open>DatabaseError\<close> stands
  for whatever the driver raises while connecting, executing or fetching.
\<close>

datatype exn = ZeroDivisionError | ValueError | DatabaseError string

subsection \<open>The range variant: object state\<close>

text \<open>
  A row is a dictionary built by the driver; no function here looks inside one, so the
  row type is a parameter. The queue holds one entry per \<^verbatim>\<open>put\<close>, oldest first.
\<close>

type_synonym row_range = "int \<times> int"

record 'row threaded_query =
  num_threads :: int
  result_queue :: "'row list list"

definition OracleThreadedQuery :: "int \<Rightarrow> 'row threaded_query" where
  "OracleThreadedQuery n = \<lparr>num_threads = n, result_queue = []\<rparr>"

subsection \<open>The range planner\<close>

text \<open>
  \<^verbatim>\<open>
  def get_partition_ranges(self, total_rows):
      chunk_size = total_rows // self.num_threads
      ranges = []
      for i in range(self.num_threads):
          start = i * chunk_size + 1
          end = (i + 1) * chunk_size if i < self.num_threads - 1 else total_rows
          ranges.append((start, end))
      return ranges
  \<close>
  The loop body is \<open>range_step\<close>; the loop is a left fold over \<open>range(num_threads)\<close>,
  which is \<open>[0..num_threads - 1]\<close> and empty for a negative bound.
\<close>

definition range_step :: "int \<Rightarrow> int \<Rightarrow> int \<Rightarrow> row_range list \<Rightarrow> int \<Rightarrow> row_range list" where
  "range_step n total_rows chunk_size ranges i =
     (let start = i * chunk_size + 1;
          end = (if i < n - 1 then (i + 1) * chunk_size else total_rows)
      in ranges @ [(start, end)])"

definition get_partition_ranges :: "'row threaded_query \<Rightarrow> int \<Rightarrow> exn + row_range list" where
  "get_partition_ranges self total_rows =
     (if num_threads self = 0 then Inl ZeroDivisionError
      else let chunk_size = total_rows div num_threads self
           in Inr (foldl (range_step (num_threads self) total_rows chunk_size) []
                     [0..num_threads self - 1]))"

text \<open>The row numbers a range \<open>[start, end]\<close> stands for; none when \<open>end < start\<close>.\<close>

definition rows_of_range :: "row_range \<Rightarrow> int list" where
  "rows_of_range r = [fst r..snd r]"

text \<open>
  The loop appends one pair per index, so its result is the image of the index list;
  \<open>planned\<close> is that closed form (lemma \<open>get_partition_ranges_map\<close> relates the two).
\<close>

definition planned :: "int \<Rightarrow> int \<Rightarrow> row_range list" where
  "planned n t =
     map (\<lambda>i. (i * (t div n) + 1, if i < n - 1 then (i + 1) * (t div n) else t)) [0..n - 1]"

subsection \<open>The database, seen from the executor\<close>

text \<open>
  The driver is outside the repository. What a partition's query does is a parameter:
  for each partition, either the exception raised while connecting, executing or
  fetching, or the rows fetched, in the order the cursor yields them. The count query
  of the range variant is a parameter of the same kind.

  \<open>rownum_db\<close> is the meaning of the text \<^verbatim>\<open>process_chunk\<close> wraps around the query,
  \<^verbatim>\<open>SELECT * FROM (SELECT a.*, ROWNUM rnum FROM (query) a WHERE ROWNUM <= end)
  WHERE rnum >= start\<close>, over a table whose base query yields the rows \<open>base\<close>:
  the rows numbered \<open>start\<close> to \<open>end\<close>, counting from 1.
\<close>

type_synonym ('p, 'row) db = "'p \<Rightarrow> exn + 'row list"

definition rownum_db :: "'row list \<Rightarrow> (row_range, 'row) db" where
  "rownum_db base r = Inr (drop (nat (fst r - 1)) (take (nat (snd r)) base))"

text \<open>
  The rows that reach the merge: a partition that raised contributes none.
\<close>

definition rows_of_successes :: "('p, 'row) db \<Rightarrow> 'p list \<Rightarrow> 'row list" where
  "rows_of_successes db ps = concat (map (\<lambda>p. case db p of Inl e \<Rightarrow> [] | Inr rows \<Rightarrow> rows) ps)"

subsection \<open>The range variant: executor and merge\<close>

text \<open>
  \<^verbatim>\<open>process_chunk\<close> runs the wrapped query, and only when nothing raised does it reach
  \<^verbatim>\<open>self.result_queue.put(results)\<close> and return.
\<close>

definition process_chunk ::
  "(row_range, 'row) db \<Rightarrow> 'row threaded_query \<Rightarrow> row_range \<Rightarrow> (exn + 'row list) \<times> 'row threaded_query" where
  "process_chunk db self row_range =
     (case db row_range of
        Inl e \<Rightarrow> (Inl e, self)
      | Inr results \<Rightarrow> (Inr results, self\<lparr>result_queue := result_queue self @ [results]\<rparr>))"

text \<open>
  The pool runs the submitted tasks on worker threads; leaving the \<^verbatim>\<open>with\<close> block
  waits for all of them. The tasks touch the object only through the queue, whose
  \<^verbatim>\<open>put\<close> is atomic, so a run is determined by the order in which the tasks finish:
  the list \<open>finished\<close>. In this variant nobody reads the futures, so what a task
  returned or raised is dropped.
\<close>

definition run_chunks ::
  "(row_range, 'row) db \<Rightarrow> 'row threaded_query \<Rightarrow> row_range list \<Rightarrow> 'row threaded_query" where
  "run_chunks db self finished = foldl (\<lambda>s r. snd (process_chunk db s r)) self finished"

text \<open>
  \<^verbatim>\<open>
  all_results = []
  while not self.result_queue.empty():
      all_results.extend(self.result_queue.get())
  \<close>
\<close>

fun drain :: "'row list list \<Rightarrow> 'row list \<Rightarrow> 'row list" where
  "drain [] all_results = all_results"
| "drain (results # queue) all_results = drain queue (all_results @ results)"

text \<open>
  What a call does: the partitions it submitted, what it returned or raised, and the
  object afterwards.
\<close>

record ('p, 'row, 'self) run =
  submitted :: "'p list"
  outcome :: "exn + 'row list"
  self_after :: 'self

text \<open>
  \<^verbatim>\<open>execute_parallel\<close> of \<^verbatim>\<open>OracleThreadedQuery\<close>. \<open>counted\<close> is what the count
  query does (\<^verbatim>\<open>cursor.fetchone()[0]\<close>, or the exception), \<open>sched\<close> turns the list of
  submitted tasks into the order in which they finish.
  An exception of the count query, of \<^verbatim>\<open>get_partition_ranges\<close> or of the pool's
  constructor leaves the method before anything is submitted.
\<close>

definition execute_parallel ::
  "'row threaded_query \<Rightarrow> exn + int \<Rightarrow> (row_range, 'row) db \<Rightarrow> (row_range list \<Rightarrow> row_range list)
     \<Rightarrow> (row_range, 'row, 'row threaded_query) run" where
  "execute_parallel self counted db sched =
     (case counted of
        Inl e \<Rightarrow> \<lparr>submitted = [], outcome = Inl e, self_after = self\<rparr>
      | Inr total_rows \<Rightarrow>
          (case get_partition_ranges self total_rows of
             Inl e \<Rightarrow> \<lparr>submitted = [], outcome = Inl e, self_after = self\<rparr>
           | Inr ranges \<Rightarrow>
               if num_threads self \<le> 0
               then \<lparr>submitted = [], outcome = Inl ValueError, self_after = self\<rparr>
               else let self' = run_chunks db self (sched ranges);
                        all_results = drain (result_queue self') []
                    in \<lparr>submitted = ranges, outcome = Inr all_results,
                        self_after = self'\<lparr>result_queue := []\<rparr>\<rparr>))"

subsection \<open>The year variant\<close>

record 'row year_query =
  start_year :: int
  end_year :: int
  year_queue :: "(int \<times> 'row list) list"

definition OracleYearPartitionedQuery :: "int \<Rightarrow> int \<Rightarrow> 'row year_query" where
  "OracleYearPartitionedQuery s e = \<lparr>start_year = s, end_year = e, year_queue = []\<rparr>"

text \<open>
  \<^verbatim>\<open>process_year\<close> collects the batches of \<^verbatim>\<open>fetchmany\<close> in order, so its rows are
  the cursor's rows; the \<^verbatim>\<open>except\<close> clause prints and re-raises, so on an exception
  the \<^verbatim>\<open>put\<close> is not reached. The queue entry carries the year.
\<close>

definition process_year ::
  "(int, 'row) db \<Rightarrow> 'row year_query \<Rightarrow> int \<Rightarrow> (exn + 'row list) \<times> 'row year_query" where
  "process_year db self year =
     (case db year of
        Inl e \<Rightarrow> (Inl e, self)
      | Inr results \<Rightarrow> (Inr results, self\<lparr>year_queue := year_queue self @ [(year, results)]\<rparr>))"

text \<open>
  The loop over the futures calls \<^verbatim>\<open>future.result()\<close> and, on an exception, prints
  it and goes on: nothing of a failure is kept.
\<close>

definition run_years ::
  "(int, 'row) db \<Rightarrow> 'row year_query \<Rightarrow> int list \<Rightarrow> 'row year_query" where
  "run_years db self finished = foldl (\<lambda>s y. snd (process_year db s y)) self finished"

text \<open>
  \<^verbatim>\<open>
  while not self.result_queue.empty():
      temp_results.append(self.result_queue.get())
  \<close>
\<close>

fun drain_years :: "(int \<times> 'row list) list \<Rightarrow> (int \<times> 'row list) list \<Rightarrow> (int \<times> 'row list) list" where
  "drain_years [] temp_results = temp_results"
| "drain_years (entry # queue) temp_results = drain_years queue (temp_results @ [entry])"

text \<open>\<^verbatim>\<open>for year, results in temp_results: all_results.extend(results)\<close>\<close>

definition extend_all :: "(int \<times> 'row list) list \<Rightarrow> 'row list" where
  "extend_all temp_results = foldl (\<lambda>all_results entry. all_results @ snd entry) [] temp_results"

text \<open>\<^verbatim>\<open>years = list(range(self.start_year, self.end_year + 1))\<close>\<close>

definition years :: "'row year_query \<Rightarrow> int list" where
  "years self = [start_year self..end_year self]"

text \<open>
  \<^verbatim>\<open>execute_parallel\<close> of \<^verbatim>\<open>OracleYearPartitionedQuery\<close>. The pool's constructor
  raises \<^verbatim>\<open>ValueError\<close> for \<open>max_workers \<le> 0\<close>. \<^verbatim>\<open>list.sort\<close> is stable, as
  \<open>sort_key\<close> is. The queue is drained before the metrics are printed, where
  \<^verbatim>\<open>total_time/total_years\<close> raises for \<open>total_years = 0\<close>.
\<close>

definition execute_parallel_by_year ::
  "'row year_query \<Rightarrow> int \<Rightarrow> (int, 'row) db \<Rightarrow> (int list \<Rightarrow> int list)
     \<Rightarrow> (int, 'row, 'row year_query) run" where
  "execute_parallel_by_year self max_concurrent_threads db sched =
     (let total_years = length (years self)
      in if max_concurrent_threads \<le> 0
         then \<lparr>submitted = [], outcome = Inl ValueError, self_after = self\<rparr>
         else let self' = run_years db self (sched (years self));
                  temp_results = sort_key fst (drain_years (year_queue self') []);
                  all_results = extend_all temp_results
              in \<lparr>submitted = years self,
                  outcome = (if total_years = 0 then Inl ZeroDivisionError else Inr all_results),
                  self_after = self'\<lparr>year_queue := []\<rparr>\<rparr>)"

subsection \<open>Concrete databases\<close>

text \<open>
  Three years of data: every year \<open>y\<close> has the two rows \<open>10 * y\<close> and \<open>10 * y + 1\<close>.
  In \<open>db_2021_fails\<close> the query for 2021 raises; in \<open>db_2021_empty\<close> it finds no row.
\<close>

definition db_2021_fails :: "(int, int) db" where
  "db_2021_fails y =
     (if y = 2021 then Inl (DatabaseError ''ORA-03113'') else Inr [10 * y, 10 * y + 1])"

definition db_2021_empty :: "(int, int) db" where
  "db_2021_empty y = (if y = 2021 then Inr [] else Inr [10 * y, 10 * y + 1])"

text \<open>
  Four rows in two chunks, \<open>(1, 2)\<close> and \<open>(3, 4)\<close>: the query of the second chunk raises.
\<close>

definition db_chunk_3_4_fails :: "(row_range, nat) db" where
  "db_chunk_3_4_fails r =
     (if r = (3, 4) then Inl (DatabaseError ''ORA-03113'') else rownum_db [10, 20, 30, 40] r)"

section \<open>Properties of the range planner\<close>

lemma foldl_range_step:
  "foldl (range_step n t c) acc is =
     acc @ map (\<lambda>i. (i * c + 1, if i < n - 1 then (i + 1) * c else t)) is"
  by (induction "is" arbitrary: acc) (simp_all add: range_step_def)

lemma get_partition_ranges_map:
  "num_threads self \<noteq> 0 \<Longrightarrow>
   get_partition_ranges self t =
     Inr (map (\<lambda>i. (i * (t div num_threads self) + 1,
                     if i < num_threads self - 1 then (i + 1) * (t div num_threads self) else t))
            [0..num_threads self - 1])"
  by (simp add: get_partition_ranges_def foldl_range_step Let_def)

lemma upto_append: "i \<le> j + 1 \<Longrightarrow> j \<le> k \<Longrightarrow> [i..k] = [i..j] @ [j + 1..k]"
proof (cases "i \<le> j")
  case True
  assume "j \<le> k"
  with True show ?thesis by (rule upto_split2)
next
  case False
  assume "i \<le> j + 1"
  with False have "i = j + 1" by simp
  then show ?thesis by simp
qed

lemma chunks_concat:
  assumes "0 \<le> c" "0 \<le> k"
  shows "concat (map (\<lambda>i. [i * c + 1..(i + 1) * c]) [0..k - 1]) = [1..k * c]"
  using assms(2)
proof (induction k rule: int_ge_induct)
  case base
  then show ?case by simp
next
  case (step i)
  have a: "[0..i + 1 - 1] = [0..i - 1] @ [i]" using step.hyps upto_rec2[of 0 i] by simp
  have "i * c \<le> (i + 1) * c" using assms(1) by (simp add: distrib_right)
  moreover have "0 \<le> i * c" using assms(1) step.hyps by simp
  ultimately have b: "[1..(i + 1) * c] = [1..i * c] @ [i * c + 1..(i + 1) * c]"
    using upto_append[of 1 "i * c" "(i+1)*c"] by simp
  show ?case using step.IH a b by simp
qed

lemma planned_split:
  assumes "1 \<le> n"
  shows "planned n t = map (\<lambda>i. (i * (t div n) + 1, (i + 1) * (t div n))) [0..n - 2]
           @ [((n - 1) * (t div n) + 1, t)]"
proof -
  have "[0..n - 1] = [0..n - 1 - 1] @ [n - 1]" using assms by (intro upto_rec2) simp
  then have "[0..n - 1] = [0..n - 2] @ [n - 1]" by simp
  then show ?thesis by (simp add: planned_def)
qed

lemma chunk_bounds:
  assumes "1 \<le> (n::int)" "0 \<le> t"
  shows "0 \<le> t div n" "(n - 1) * (t div n) \<le> t"
proof -
  show c: "0 \<le> t div n" using assms by (simp add: pos_imp_zdiv_nonneg_iff)
  have "n * (t div n) \<le> t"
    using mult_div_mod_eq[of n t] pos_mod_sign[of n t] assms(1) by linarith
  moreover have "(n - 1) * (t div n) \<le> n * (t div n)" using c by (simp add: mult_right_mono)
  ultimately show "(n - 1) * (t div n) \<le> t" by simp
qed

lemma planned_rows:
  assumes "1 \<le> n" "0 \<le> t"
  shows "concat (map rows_of_range (planned n t)) = [1..t]"
proof -
  let ?c = "t div n"
  have "concat (map rows_of_range (planned n t))
          = concat (map (\<lambda>i. [i * ?c + 1..(i + 1) * ?c]) [0..(n - 1) - 1]) @ [(n - 1) * ?c + 1..t]"
    using assms(1) by (simp add: planned_split rows_of_range_def comp_def)
  also have "\<dots> = [1..(n - 1) * ?c] @ [(n - 1) * ?c + 1..t]"
    using chunks_concat[of ?c "n - 1"] chunk_bounds(1)[OF assms] assms(1) by simp
  also have "\<dots> = [1..t]"
    using upto_append[of 1 "(n - 1) * ?c" t] chunk_bounds[OF assms] assms(1) by simp
  finally show ?thesis .
qed

lemma length_planned: "length (planned n t) = nat n"
  by (simp add: planned_def)

lemma nth_planned:
  "k < nat n \<Longrightarrow>
   planned n t ! k =
     (int k * (t div n) + 1, if int k < n - 1 then (int k + 1) * (t div n) else t)"
  by (simp add: planned_def)

lemma planned_row_index_unique:
  assumes "1 \<le> n" "0 \<le> t" "j < nat n" "k < nat n" "j < k"
  shows "set (rows_of_range (planned n t ! j)) \<inter> set (rows_of_range (planned n t ! k)) = {}"
proof -
  have "int j < n - 1" using assms by linarith
  then have j: "rows_of_range (planned n t ! j) = [int j * (t div n) + 1..(int j + 1) * (t div n)]"
    using assms(3) by (simp add: nth_planned rows_of_range_def)
  have k: "fst (planned n t ! k) = int k * (t div n) + 1"
    using assms(4) by (simp add: nth_planned)
  have "int j + 1 \<le> int k" using assms(5) by simp
  then have "(int j + 1) * (t div n) \<le> int k * (t div n)"
    using chunk_bounds(1)[OF assms(1,2)] by (rule mult_right_mono)
  then show ?thesis using j k by (auto simp: rows_of_range_def)
qed

lemma planned_row_in_one:
  assumes "1 \<le> n" "0 \<le> t" "1 \<le> r" "r \<le> t"
  shows "\<exists>!k. k < length (planned n t) \<and> r \<in> set (rows_of_range (planned n t ! k))"
proof -
  have "r \<in> set (concat (map rows_of_range (planned n t)))"
    using assms planned_rows[of n t] by simp
  then obtain xs where "xs \<in> set (planned n t)" "r \<in> set (rows_of_range xs)"
    by auto
  then obtain k where k: "k < length (planned n t)" "r \<in> set (rows_of_range (planned n t ! k))"
    by (metis in_set_conv_nth)
  have "j = k" if "j < length (planned n t)" "r \<in> set (rows_of_range (planned n t ! j))" for j
  proof (rule ccontr)
    assume "j \<noteq> k"
    then consider "j < k" | "k < j" by linarith
    then show False
      using planned_row_index_unique[OF assms(1,2), of j k]
            planned_row_index_unique[OF assms(1,2), of k j] that k
      by (cases) (auto simp: length_planned)
  qed
  with k show ?thesis by blast
qed

lemma planned_nonempty:
  assumes "1 \<le> n" "n \<le> t" "k < length (planned n t)"
  shows "fst (planned n t ! k) \<le> snd (planned n t ! k)"
proof -
  have c: "1 \<le> t div n" using assms(1,2) pos_imp_zdiv_pos_iff[of n t] by simp
  have kn: "k < nat n" using assms(3) by (simp add: length_planned)
  show ?thesis
  proof (cases "int k < n - 1")
    case True
    have "int k * (t div n) + 1 \<le> int k * (t div n) + t div n" using c by simp
    then show ?thesis using True kn by (simp add: nth_planned distrib_right)
  next
    case False
    then have "int k = n - 1" using kn by linarith
    moreover have "(n - 1) * (t div n) + 1 \<le> t"
    proof -
      have "n * (t div n) \<le> t"
        using mult_div_mod_eq[of n t] pos_mod_sign[of n t] assms(1) by linarith
      moreover have "(n - 1) * (t div n) + t div n = n * (t div n)" by (simp add: algebra_simps)
      ultimately show ?thesis using c by linarith
    qed
    ultimately show ?thesis using kn by (simp add: nth_planned)
  qed
qed

lemma planned_zero: "1 \<le> n \<Longrightarrow> planned n 0 = replicate (nat n) (1, 0)"
proof -
  assume n: "1 \<le> n"
  have "(\<lambda>i. (i * (0 div n) + 1, if i < n - 1 then (i + 1) * (0 div n) else 0))
          = (\<lambda>i. (1::int, 0::int))"
    by auto
  then have "planned n 0 = map (\<lambda>i. (1, 0)) [0..n - 1]" by (simp add: planned_def)
  then show ?thesis using n by (simp add: map_replicate_const)
qed

section \<open>The executor and the merge, in closed form\<close>

lemma drain_concat: "drain queue acc = acc @ concat queue"
  by (induction queue arbitrary: acc) simp_all

lemma drain_years_append: "drain_years queue acc = acc @ queue"
  by (induction queue arbitrary: acc) simp_all

lemma foldl_extend: "foldl (\<lambda>acc entry. acc @ snd entry) acc es = acc @ concat (map snd es)"
  by (induction es arbitrary: acc) simp_all

lemma extend_all_concat: "extend_all es = concat (map snd es)"
  by (simp add: extend_all_def foldl_extend)

lemma result_queue_run_chunks:
  "result_queue (run_chunks db self finished) =
     result_queue self @ map (\<lambda>r. projr (db r)) (filter (\<lambda>r. \<not> isl (db r)) finished)"
  unfolding run_chunks_def
  by (induction finished arbitrary: self) (auto simp: process_chunk_def split: sum.splits)

lemma num_threads_run_chunks: "num_threads (run_chunks db self finished) = num_threads self"
  unfolding run_chunks_def
  by (induction finished arbitrary: self) (auto simp: process_chunk_def split: sum.splits)

lemma year_queue_run_years:
  "year_queue (run_years db self finished) =
     year_queue self @ map (\<lambda>y. (y, projr (db y))) (filter (\<lambda>y. \<not> isl (db y)) finished)"
  unfolding run_years_def
  by (induction finished arbitrary: self) (auto simp: process_year_def split: sum.splits)

lemma rows_of_successes_filter:
  "rows_of_successes db ps = concat (map (\<lambda>p. projr (db p)) (filter (\<lambda>p. \<not> isl (db p)) ps))"
  unfolding rows_of_successes_def
  by (induction ps) (auto split: sum.splits)

lemma insort_key_tagged:
  "insort_key fst (x, g x) (map (\<lambda>y. (y, g y)) ys) = map (\<lambda>y. (y, g y)) (insort x ys)"
  by (induction ys) simp_all

lemma sort_key_tagged:
  "sort_key fst (map (\<lambda>y. (y, g y)) ys) = map (\<lambda>y. (y, g y)) (sort ys)"
  by (induction ys) (simp_all add: insort_key_tagged)

lemma sort_finished_successes:
  fixes ps :: "int list"
  assumes "mset finished = mset ps" "sorted ps"
  shows "sort (filter P finished) = filter P ps"
proof (rule properties_for_sort)
  show "mset (filter P ps) = mset (filter P finished)" using assms(1) by simp
  show "sorted (filter P ps)" using assms(2) by (rule sorted_wrt_filter)
qed

lemma years_empty_iff: "length (years self) = 0 \<longleftrightarrow> end_year self < start_year self"
  by (simp add: years_def) linarith

lemma merged_years:
  assumes "year_queue self = []" "mset (sched (years self)) = mset (years self)"
  shows "extend_all (sort_key fst (drain_years (year_queue (run_years db self (sched (years self)))) []))
           = rows_of_successes db (years self)"
proof -
  have "sorted (years self)" by (simp add: years_def)
  with assms(2) have s: "sort (filter (\<lambda>y. \<not> isl (db y)) (sched (years self)))
                           = filter (\<lambda>y. \<not> isl (db y)) (years self)"
    by (rule sort_finished_successes)
  show ?thesis
    using assms(1) s
    by (simp add: year_queue_run_years drain_years_append sort_key_tagged extend_all_concat
          rows_of_successes_filter comp_def)
qed

lemma self_after_run_years:
  "(run_years db self finished)\<lparr>year_queue := []\<rparr> = self\<lparr>year_queue := []\<rparr>"
  unfolding run_years_def
  by (induction finished arbitrary: self) (auto simp: process_year_def split: sum.splits)

lemma self_after_run_chunks:
  "(run_chunks db self finished)\<lparr>result_queue := []\<rparr> = self\<lparr>result_queue := []\<rparr>"
  unfolding run_chunks_def
  by (induction finished arbitrary: self) (auto simp: process_chunk_def split: sum.splits)

lemma execute_parallel_by_year_rows:
  assumes "1 \<le> k" "year_queue self = []" "mset (sched (years self)) = mset (years self)"
  shows "execute_parallel_by_year self k db sched =
           \<lparr>submitted = years self,
            outcome = (if end_year self < start_year self then Inl ZeroDivisionError
                       else Inr (rows_of_successes db (years self))),
            self_after = self\<rparr>"
proof -
  have "self\<lparr>year_queue := []\<rparr> = self" using assms(2) by simp
  then show ?thesis
    using assms(1) merged_years[of self sched db, OF assms(2,3)] years_empty_iff[of self]
    by (simp add: execute_parallel_by_year_def Let_def self_after_run_years)
qed

lemma execute_parallel_rows:
  assumes "1 \<le> num_threads self" "result_queue self = []"
  shows "execute_parallel self (Inr t) db sched =
           \<lparr>submitted = planned (num_threads self) t,
            outcome = Inr (rows_of_successes db (sched (planned (num_threads self) t))),
            self_after = self\<rparr>"
proof -
  have p: "get_partition_ranges self t = Inr (planned (num_threads self) t)"
    using assms(1) by (simp add: get_partition_ranges_map planned_def)
  have "self\<lparr>result_queue := []\<rparr> = self" using assms(2) by simp
  then show ?thesis
    using assms
    by (simp add: execute_parallel_def p Let_def self_after_run_chunks drain_concat
          result_queue_run_chunks rows_of_successes_filter)
qed

text \<open>
  The year variant sorts the queue entries by year before it concatenates them, so
  its result does not depend on the order in which the years finish.
\<close>

lemma year_merge_order_invariant:
  assumes "1 \<le> k" "year_queue self = []"
    and "mset (sched (years self)) = mset (years self)"
    and "mset (sched' (years self)) = mset (years self)"
  shows "execute_parallel_by_year self k db sched = execute_parallel_by_year self k db sched'"
  using assms by (simp add: execute_parallel_by_year_rows)

lemma rownum_db_empty_range: "rownum_db base (1, 0) = Inr []"
  by (simp add: rownum_db_def)

lemma rows_of_successes_empty:
  "(\<And>p. p \<in> set ps \<Longrightarrow> db p = Inr []) \<Longrightarrow> rows_of_successes db ps = []"
  by (simp add: rows_of_successes_def)

text \<open>
  The order in which the tasks finish permutes the rows of whole partitions, no more.
  The queue is empty after \<^verbatim>\<open>__init__\<close> and every call leaves it empty, so every call
  starts with an empty queue.
\<close>

lemma mset_concat_map_cong:
  assumes "mset xs = mset ys"
  shows "mset (concat (map f xs)) = mset (concat (map f ys))"
proof -
  have "mset (concat (map f zs)) = (\<Sum>z\<in>#mset zs. mset (f z))" for zs
    by (induction zs) simp_all
  then show ?thesis using assms by simp
qed

lemma mset_rows_of_successes:
  "mset finished = mset ps \<Longrightarrow>
   mset (rows_of_successes db finished) = mset (rows_of_successes db ps)"
  unfolding rows_of_successes_def by (rule mset_concat_map_cong)

lemma execute_parallel_queue_stays_empty:
  "result_queue self = [] \<Longrightarrow>
   result_queue (self_after (execute_parallel self counted db sched)) = []"
  by (simp add: execute_parallel_def Let_def split: sum.splits)

lemma execute_parallel_by_year_queue_stays_empty:
  "year_queue self = [] \<Longrightarrow>
   year_queue (self_after (execute_parallel_by_year self k db sched)) = []"
  by (simp add: execute_parallel_by_year_def Let_def)

section \<open>The specification's claims, checked against the code\<close>

text \<open>
  C2. For every \<open>total_rows \<ge> 1\<close> and every partition count in \<open>[1, total_rows]\<close>, the
  ranges of \<^verbatim>\<open>get_partition_ranges\<close> exactly cover \<open>[1, total_rows]\<close>: read in order,
  their row numbers are \<open>1, 2, \<dots>, total_rows\<close> (no gap, no repetition), every row number
  lies in exactly one range, and no range is empty.
\<close>

theorem get_partition_ranges_cover:
  assumes "1 \<le> num_threads self" and "num_threads self \<le> total_rows"
  shows "\<exists>ranges. get_partition_ranges self total_rows = Inr ranges
           \<and> concat (map rows_of_range ranges) = [1..total_rows]
           \<and> (\<forall>r\<in>{1..total_rows}. \<exists>!k. k < length ranges \<and> r \<in> set (rows_of_range (ranges ! k)))
           \<and> (\<forall>k<length ranges. fst (ranges ! k) \<le> snd (ranges ! k))"
proof -
  have t: "0 \<le> total_rows" using assms by simp
  have "get_partition_ranges self total_rows = Inr (planned (num_threads self) total_rows)"
    using assms(1) by (simp add: get_partition_ranges_map planned_def)
  moreover have "concat (map rows_of_range (planned (num_threads self) total_rows)) = [1..total_rows]"
    using assms(1) t by (rule planned_rows)
  moreover have "\<forall>r\<in>{1..total_rows}. \<exists>!k. k < length (planned (num_threads self) total_rows)
                   \<and> r \<in> set (rows_of_range (planned (num_threads self) total_rows ! k))"
    using planned_row_in_one[OF assms(1) t] by simp
  moreover have "\<forall>k<length (planned (num_threads self) total_rows).
                   fst (planned (num_threads self) total_rows ! k)
                     \<le> snd (planned (num_threads self) total_rows ! k)"
    using planned_nonempty[OF assms] by blast
  ultimately show ?thesis by blast
qed

theorem get_partition_ranges_cover_witness:
  "(1::int) \<le> 4 \<and> (4::int) \<le> 25
   \<and> get_partition_ranges (OracleThreadedQuery 4 :: nat threaded_query) 25
         = Inr [(1, 6), (7, 12), (13, 18), (19, 25)]
   \<and> concat (map rows_of_range [(1, 6), (7, 12), (13, 18), (19, 25)]) = [1..25]
   \<and> (\<exists>!k. k < length [(1::int, 6::int), (7, 12), (13, 18), (19, 25)]
              \<and> 12 \<in> set (rows_of_range ([(1, 6), (7, 12), (13, 18), (19, 25)] ! k)))"
proof -
  have e: "get_partition_ranges (OracleThreadedQuery 4 :: nat threaded_query) 25
             = Inr [(1, 6), (7, 12), (13, 18), (19, 25)]"
    by code_simp
  have n: "num_threads (OracleThreadedQuery 4 :: nat threaded_query) = 4"
    by (simp add: OracleThreadedQuery_def)
  show ?thesis
    using get_partition_ranges_cover[of "OracleThreadedQuery 4 :: nat threaded_query" 25] e n
    by simp
qed

text \<open>
  C3. With \<open>chunk_size = total_rows div num_threads\<close> (integer division) and
  \<open>num_threads \<ge> 1\<close>, \<^verbatim>\<open>get_partition_ranges\<close> returns \<open>num_threads\<close> ranges; range
  \<open>i\<close> (counting from 0) is \<open>[i * chunk_size + 1, (i + 1) * chunk_size]\<close> for every \<open>i\<close>
  before the last, and the last one starts at \<open>(num_threads - 1) * chunk_size + 1\<close> and
  ends at \<open>total_rows\<close>. For 25 rows and 4 partitions the ranges are
  \<open>[1,6], [7,12], [13,18], [19,25]\<close>.
\<close>

theorem get_partition_ranges_chunks:
  "(1 \<le> num_threads self \<longrightarrow>
      (\<exists>ranges. get_partition_ranges self total_rows = Inr ranges
         \<and> length ranges = nat (num_threads self)
         \<and> (\<forall>i<nat (num_threads self) - 1.
               ranges ! i = (int i * (total_rows div num_threads self) + 1,
                             (int i + 1) * (total_rows div num_threads self)))
         \<and> ranges ! (nat (num_threads self) - 1)
               = ((num_threads self - 1) * (total_rows div num_threads self) + 1, total_rows)))
   \<and> get_partition_ranges (OracleThreadedQuery 4) 25 = Inr [(1, 6), (7, 12), (13, 18), (19, 25)]"
proof (intro conjI impI)
  assume n: "1 \<le> num_threads self"
  let ?n = "num_threads self"
  have "get_partition_ranges self total_rows = Inr (planned ?n total_rows)"
    using n by (simp add: get_partition_ranges_map planned_def)
  moreover have "length (planned ?n total_rows) = nat ?n"
    by (rule length_planned)
  moreover have "\<forall>i<nat ?n - 1. planned ?n total_rows ! i
        = (int i * (total_rows div ?n) + 1, (int i + 1) * (total_rows div ?n))"
  proof (intro allI impI)
    fix i assume "i < nat ?n - 1"
    then have "i < nat ?n" "int i < ?n - 1" by linarith+
    then show "planned ?n total_rows ! i
        = (int i * (total_rows div ?n) + 1, (int i + 1) * (total_rows div ?n))"
      by (simp add: nth_planned)
  qed
  moreover have "planned ?n total_rows ! (nat ?n - 1) = ((?n - 1) * (total_rows div ?n) + 1, total_rows)"
  proof -
    have "nat ?n - 1 < nat ?n" "int (nat ?n - 1) = ?n - 1" using n by linarith+
    then show ?thesis by (simp add: nth_planned)
  qed
  ultimately show "\<exists>ranges. get_partition_ranges self total_rows = Inr ranges
         \<and> length ranges = nat ?n
         \<and> (\<forall>i<nat ?n - 1.
               ranges ! i = (int i * (total_rows div ?n) + 1, (int i + 1) * (total_rows div ?n)))
         \<and> ranges ! (nat ?n - 1) = ((?n - 1) * (total_rows div ?n) + 1, total_rows)"
    by blast
next
  show "get_partition_ranges (OracleThreadedQuery 4) 25 = Inr [(1, 6), (7, 12), (13, 18), (19, 25)]"
    by code_simp
qed

theorem get_partition_ranges_chunks_witness:
  "1 \<le> num_threads (OracleThreadedQuery 3 :: nat threaded_query)
   \<and> get_partition_ranges (OracleThreadedQuery 3 :: nat threaded_query) 7 = Inr [(1, 2), (3, 4), (5, 7)]
   \<and> (7::int) div 3 = 2
   \<and> [(1::int, 2::int), (3, 4), (5, 7)] ! 1 = (1 * 2 + 1, (1 + 1) * 2)
   \<and> [(1::int, 2::int), (3, 4), (5, 7)] ! 2 = ((3 - 1) * 2 + 1, 7)"
proof -
  have e: "get_partition_ranges (OracleThreadedQuery 3 :: nat threaded_query) 7
             = Inr [(1, 2), (3, 4), (5, 7)]"
    by code_simp
  have n: "num_threads (OracleThreadedQuery 3 :: nat threaded_query) = 3"
    by (simp add: OracleThreadedQuery_def)
  show ?thesis
    using get_partition_ranges_chunks[of "OracleThreadedQuery 3 :: nat threaded_query" 7] e n
    by simp
qed

text \<open>
  C9. \<^verbatim>\<open>get_partition_ranges\<close> raises \<^verbatim>\<open>ZeroDivisionError\<close> for \<open>num_threads = 0\<close>,
  and returns normally for every \<open>num_threads \<ge> 1\<close> and \<open>total_rows \<ge> 0\<close>.
\<close>

theorem get_partition_ranges_total:
  "(num_threads self = 0 \<longrightarrow> get_partition_ranges self total_rows = Inl ZeroDivisionError)
   \<and> (1 \<le> num_threads self \<and> 0 \<le> total_rows \<longrightarrow>
        (\<exists>ranges. get_partition_ranges self total_rows = Inr ranges))"
  by (simp add: get_partition_ranges_def Let_def)

theorem get_partition_ranges_total_witness:
  "num_threads (OracleThreadedQuery 0 :: nat threaded_query) = 0
   \<and> get_partition_ranges (OracleThreadedQuery 0 :: nat threaded_query) 7 = Inl ZeroDivisionError
   \<and> 1 \<le> num_threads (OracleThreadedQuery 3 :: nat threaded_query) \<and> (0::int) \<le> 7
   \<and> (\<exists>ranges. get_partition_ranges (OracleThreadedQuery 3 :: nat threaded_query) 7 = Inr ranges)"
  using get_partition_ranges_total[of "OracleThreadedQuery 0 :: nat threaded_query" 7]
        get_partition_ranges_total[of "OracleThreadedQuery 3 :: nat threaded_query" 7]
  by (simp add: OracleThreadedQuery_def)

text \<open>
  C1. The merged rows are not always in ascending range start, nor the same for every
  completion order: the range variant concatenates the queue entries in the order
  in which the workers put them. With two threads over a two-row table, the output
  is \<open>[10, 20]\<close> when the first range finishes first and \<open>[20, 10]\<close> when the second
  does. (The year variant is order-independent: \<open>year_merge_order_invariant\<close>.)
\<close>

theorem range_merge_in_completion_order:
  "submitted (execute_parallel (OracleThreadedQuery 2) (Inr 2) (rownum_db [10, 20 :: nat]) id)
     = [(1, 1), (2, 2)]
   \<and> outcome (execute_parallel (OracleThreadedQuery 2) (Inr 2) (rownum_db [10, 20 :: nat]) id)
     = Inr [10, 20]
   \<and> outcome (execute_parallel (OracleThreadedQuery 2) (Inr 2) (rownum_db [10, 20 :: nat]) rev)
     = Inr [20, 10]"
  by code_simp

text \<open>
  C4. For \<open>total_rows = 0\<close> and \<open>num_threads \<ge> 1\<close>, on an object whose queue is empty
  (as it is after construction and after every call), the planner yields
  \<open>num_threads\<close> partitions, each the empty range \<open>[1, 0]\<close>, and all of them are
  submitted to the pool. The call returns without error; its result is what the
  queries of the finished partitions returned, which is no row when the queries run
  against a table (\<^verbatim>\<open>ROWNUM <= 0\<close> selects nothing).
\<close>

theorem execute_parallel_zero_rows:
  assumes "1 \<le> num_threads self" and "result_queue self = []"
  shows "get_partition_ranges self 0 = Inr (replicate (nat (num_threads self)) (1, 0))
         \<and> submitted (execute_parallel self (Inr 0) db sched)
              = replicate (nat (num_threads self)) (1, 0)
         \<and> outcome (execute_parallel self (Inr 0) db sched)
              = Inr (rows_of_successes db (sched (replicate (nat (num_threads self)) (1, 0))))
         \<and> (set (sched (replicate (nat (num_threads self)) (1, 0))) \<subseteq> {(1, 0)} \<longrightarrow>
              outcome (execute_parallel self (Inr 0) (rownum_db base) sched) = Inr [])"
proof -
  let ?ps = "replicate (nat (num_threads self)) (1::int, 0::int)"
  have p: "planned (num_threads self) 0 = ?ps" using assms(1) by (rule planned_zero)
  have g: "get_partition_ranges self 0 = Inr ?ps"
    using assms(1) p by (simp add: get_partition_ranges_map planned_def)
  have r: "execute_parallel self (Inr 0) d sched =
             \<lparr>submitted = ?ps, outcome = Inr (rows_of_successes d (sched ?ps)), self_after = self\<rparr>"
    for d :: "(row_range, 'a) db"
    using execute_parallel_rows[OF assms, of 0 d sched] p by simp
  have "rows_of_successes (rownum_db base) (sched ?ps) = []" if "set (sched ?ps) \<subseteq> {(1, 0)}"
    using that by (intro rows_of_successes_empty) (auto simp: rownum_db_empty_range)
  then show ?thesis using g r by simp
qed

theorem execute_parallel_zero_rows_witness:
  "1 \<le> num_threads (OracleThreadedQuery 4 :: nat threaded_query)
   \<and> result_queue (OracleThreadedQuery 4 :: nat threaded_query) = []
   \<and> set (rev (replicate (nat 4) (1::int, 0::int))) \<subseteq> {(1, 0)}
   \<and> get_partition_ranges (OracleThreadedQuery 4 :: nat threaded_query) 0 = Inr (replicate (nat 4) (1, 0))
   \<and> submitted (execute_parallel (OracleThreadedQuery 4) (Inr 0) (rownum_db [5, 6 :: nat]) rev)
        = replicate (nat 4) (1, 0)
   \<and> outcome (execute_parallel (OracleThreadedQuery 4) (Inr 0) (rownum_db [5, 6 :: nat]) rev) = Inr []"
proof -
  have n: "num_threads (OracleThreadedQuery 4 :: nat threaded_query) = 4"
    and q: "result_queue (OracleThreadedQuery 4 :: nat threaded_query) = []"
    by (simp_all add: OracleThreadedQuery_def)
  have s: "set (rev (replicate (nat 4) (1::int, 0::int))) \<subseteq> {(1, 0)}"
    by simp
  have one: "1 \<le> num_threads (OracleThreadedQuery 4 :: nat threaded_query)"
    using n by simp
  note t = execute_parallel_zero_rows[OF one q, of "rownum_db [5, 6]" rev "[5, 6]", unfolded n]
  show ?thesis using t one q s by blast
qed

text \<open>
  The claim as the specification words it, zero partitions planned and none executed,
  fails for four threads: four ranges are planned and submitted.
\<close>

theorem zero_rows_still_planned:
  "get_partition_ranges (OracleThreadedQuery 4 :: nat threaded_query) 0
     = Inr [(1, 0), (1, 0), (1, 0), (1, 0)]
   \<and> submitted (execute_parallel (OracleThreadedQuery 4) (Inr 0) (rownum_db ([] :: nat list)) id)
     = [(1, 0), (1, 0), (1, 0), (1, 0)]"
  by code_simp

text \<open>
  C5. For a key range \<open>[start_year, end_year]\<close> (the empty range
  \<open>start_year = end_year + 1\<close> included) the planner enumerates exactly
  \<open>end_year - start_year + 1\<close> partitions, one per integer of the range, without
  duplicates, and these are the partitions submitted.
\<close>

theorem years_one_per_key:
  assumes "start_year self \<le> end_year self + 1"
  shows "int (length (years self)) = end_year self - start_year self + 1
         \<and> distinct (years self)
         \<and> set (years self) = {start_year self..end_year self}
         \<and> (1 \<le> k \<longrightarrow> submitted (execute_parallel_by_year self k db sched) = years self)"
  using assms by (simp add: years_def execute_parallel_by_year_def Let_def)

theorem years_one_per_key_witness:
  "start_year (OracleYearPartitionedQuery 2020 2022 :: int year_query)
     \<le> end_year (OracleYearPartitionedQuery 2020 2022 :: int year_query) + 1
   \<and> years (OracleYearPartitionedQuery 2020 2022 :: int year_query) = [2020, 2021, 2022]
   \<and> int (length (years (OracleYearPartitionedQuery 2020 2022 :: int year_query))) = 2022 - 2020 + 1
   \<and> distinct (years (OracleYearPartitionedQuery 2020 2022 :: int year_query))
   \<and> (1::int) \<le> 4
   \<and> submitted (execute_parallel_by_year (OracleYearPartitionedQuery 2020 2022) 4 db_2021_fails rev)
        = [2020, 2021, 2022]"
proof -
  have y: "years (OracleYearPartitionedQuery 2020 2022 :: int year_query) = [2020, 2021, 2022]"
    by code_simp
  show ?thesis
    using years_one_per_key[of "OracleYearPartitionedQuery 2020 2022 :: int year_query" 4 db_2021_fails rev] y
    by (simp add: OracleYearPartitionedQuery_def)
qed

text \<open>
  C6. When partitions fail, a call that reaches the merge (pool size and
  \<open>num_threads\<close> at least 1, \<open>start_year \<le> end_year\<close>, the queue empty before the call)
  still returns a plain row list: the rows of the successful partitions only, in
  ascending year in the year variant. The rows of the failed partitions are left
  out, and nothing in the returned value tells which partitions failed.
\<close>

theorem failed_partitions_dropped:
  "(1 \<le> max_concurrent_threads \<and> start_year self \<le> end_year self \<and> year_queue self = []
      \<and> mset (sched (years self)) = mset (years self) \<longrightarrow>
      outcome (execute_parallel_by_year self max_concurrent_threads db sched)
        = Inr (rows_of_successes db (years self)))
   \<and> (1 \<le> num_threads self' \<and> result_queue self' = []
        \<and> mset (sched' (planned (num_threads self') total_rows))
             = mset (planned (num_threads self') total_rows) \<longrightarrow>
        (\<exists>rows. outcome (execute_parallel self' (Inr total_rows) db' sched') = Inr rows
           \<and> mset rows = mset (rows_of_successes db' (planned (num_threads self') total_rows))))"
proof (intro conjI impI)
  assume a: "1 \<le> max_concurrent_threads \<and> start_year self \<le> end_year self \<and> year_queue self = []
      \<and> mset (sched (years self)) = mset (years self)"
  then show "outcome (execute_parallel_by_year self max_concurrent_threads db sched)
        = Inr (rows_of_successes db (years self))"
    using execute_parallel_by_year_rows[of max_concurrent_threads self sched db] by simp
next
  let ?ps = "planned (num_threads self') total_rows"
  assume b: "1 \<le> num_threads self' \<and> result_queue self' = [] \<and> mset (sched' ?ps) = mset ?ps"
  then have "outcome (execute_parallel self' (Inr total_rows) db' sched')
          = Inr (rows_of_successes db' (sched' ?ps))"
    using execute_parallel_rows[of self' total_rows db' sched'] by simp
  moreover have "mset (rows_of_successes db' (sched' ?ps)) = mset (rows_of_successes db' ?ps)"
    using b by (intro mset_rows_of_successes) simp
  ultimately show "\<exists>rows. outcome (execute_parallel self' (Inr total_rows) db' sched') = Inr rows
           \<and> mset rows = mset (rows_of_successes db' ?ps)"
    by blast
qed

theorem failed_partitions_dropped_witness:
  "(1::int) \<le> 4
   \<and> start_year (OracleYearPartitionedQuery 2020 2022 :: int year_query)
        \<le> end_year (OracleYearPartitionedQuery 2020 2022 :: int year_query)
   \<and> year_queue (OracleYearPartitionedQuery 2020 2022 :: int year_query) = []
   \<and> mset (rev (years (OracleYearPartitionedQuery 2020 2022 :: int year_query)))
        = mset (years (OracleYearPartitionedQuery 2020 2022 :: int year_query))
   \<and> db_2021_fails 2021 = Inl (DatabaseError ''ORA-03113'')
   \<and> outcome (execute_parallel_by_year (OracleYearPartitionedQuery 2020 2022) 4 db_2021_fails rev)
        = Inr (rows_of_successes db_2021_fails [2020, 2021, 2022])
   \<and> rows_of_successes db_2021_fails [2020, 2021, 2022] = [20200, 20201, 20220, 20221]
   \<and> 1 \<le> num_threads (OracleThreadedQuery 2 :: nat threaded_query)
   \<and> result_queue (OracleThreadedQuery 2 :: nat threaded_query) = []
   \<and> planned 2 4 = [(1, 2), (3, 4)]
   \<and> mset (rev (planned 2 4)) = mset (planned 2 4)
   \<and> db_chunk_3_4_fails (3, 4) = Inl (DatabaseError ''ORA-03113'')
   \<and> rows_of_successes db_chunk_3_4_fails [(1, 2), (3, 4)] = [10, 20]
   \<and> (\<exists>rows. outcome (execute_parallel (OracleThreadedQuery 2) (Inr 4) db_chunk_3_4_fails rev) = Inr rows
         \<and> mset rows = mset [10, 20])"
proof -
  have y: "years (OracleYearPartitionedQuery 2020 2022 :: int year_query) = [2020, 2021, 2022]"
    by code_simp
  have r: "rows_of_successes db_2021_fails [2020, 2021, 2022] = [20200, 20201, 20220, 20221]"
    by code_simp
  have f: "db_2021_fails 2021 = Inl (DatabaseError ''ORA-03113'')"
    by (simp add: db_2021_fails_def)
  have p: "planned 2 4 = [(1, 2), (3, 4)]"
    by code_simp
  have c: "rows_of_successes db_chunk_3_4_fails [(1, 2), (3, 4)] = [10, 20]"
    by code_simp
  have g: "db_chunk_3_4_fails (3, 4) = Inl (DatabaseError ''ORA-03113'')"
    by (simp add: db_chunk_3_4_fails_def)
  show ?thesis
    using failed_partitions_dropped[of 4 "OracleYearPartitionedQuery 2020 2022" rev db_2021_fails
             "OracleThreadedQuery 2" rev 4 db_chunk_3_4_fails] y r f p c g
    by (simp add: OracleYearPartitionedQuery_def OracleThreadedQuery_def)
qed

text \<open>
  The claim as the specification words it fails for the years 2020 to 2022 when the
  query of 2021 raises: the caller gets the rows of 2020 and 2022, and the whole
  run is equal to the run against a database where 2021 has no rows.
\<close>

theorem failed_year_unreported:
  "db_2021_fails 2021 = Inl (DatabaseError ''ORA-03113'')
   \<and> outcome (execute_parallel_by_year (OracleYearPartitionedQuery 2020 2022) 4 db_2021_fails id)
        = Inr [20200, 20201, 20220, 20221]
   \<and> execute_parallel_by_year (OracleYearPartitionedQuery 2020 2022) 4 db_2021_fails id
        = execute_parallel_by_year (OracleYearPartitionedQuery 2020 2022) 4 db_2021_empty id"
  by code_simp

text \<open>
  C7. If the count query fails, \<^verbatim>\<open>execute_parallel\<close> fails with that exception, no
  partition is submitted and the object is unchanged. The total it returns is not
  validated: for \<open>num_threads \<ge> 1\<close> and any integer total, negative ones included,
  \<open>num_threads\<close> partitions are submitted and the call returns normally.
\<close>

theorem execute_parallel_count_failure:
  "outcome (execute_parallel self (Inl e) db sched) = Inl e
   \<and> submitted (execute_parallel self (Inl e) db sched) = []
   \<and> self_after (execute_parallel self (Inl e) db sched) = self
   \<and> (1 \<le> num_threads self \<longrightarrow>
        length (submitted (execute_parallel self (Inr total_rows) db sched)) = nat (num_threads self)
        \<and> (\<exists>rows. outcome (execute_parallel self (Inr total_rows) db sched) = Inr rows))"
  by (simp add: execute_parallel_def get_partition_ranges_map Let_def)

theorem execute_parallel_count_failure_witness:
  "1 \<le> num_threads (OracleThreadedQuery 2 :: nat threaded_query)
   \<and> outcome (execute_parallel (OracleThreadedQuery 2) (Inl (DatabaseError ''ORA-00942'')) (rownum_db [1, 2, 3 :: nat]) id)
        = Inl (DatabaseError ''ORA-00942'')
   \<and> length (submitted (execute_parallel (OracleThreadedQuery 2) (Inr (- 4)) (rownum_db [1, 2, 3 :: nat]) id)) = 2
   \<and> (\<exists>rows. outcome (execute_parallel (OracleThreadedQuery 2) (Inr (- 4)) (rownum_db [1, 2, 3 :: nat]) id) = Inr rows)"
  using execute_parallel_count_failure[of "OracleThreadedQuery 2" "DatabaseError ''ORA-00942''" "rownum_db [1, 2, 3 :: nat]" id "- 4"]
  by (simp add: OracleThreadedQuery_def)

text \<open>
  The claim as the specification words it fails for a negative total: with two threads
  and a count of \<open>- 4\<close>, two partitions are submitted and the call returns.
\<close>

theorem count_not_validated:
  "submitted (execute_parallel (OracleThreadedQuery 2) (Inr (- 4)) (rownum_db [1, 2, 3 :: nat]) id)
     = [(1, - 2), (- 1, - 4)]
   \<and> outcome (execute_parallel (OracleThreadedQuery 2) (Inr (- 4)) (rownum_db [1, 2, 3 :: nat]) id)
     = Inr []"
  by code_simp

text \<open>
  C10. In the year variant with a pool size of at least 1: if
  \<open>start_year > end_year\<close>, no partition is planned and the call raises
  \<^verbatim>\<open>ZeroDivisionError\<close> (the average time per year divides by the number of years);
  the call returns normally exactly when \<open>start_year \<le> end_year\<close>.
\<close>

theorem execute_parallel_by_year_returns_iff:
  assumes "1 \<le> max_concurrent_threads"
  shows "(end_year self < start_year self \<longrightarrow>
            submitted (execute_parallel_by_year self max_concurrent_threads db sched) = []
            \<and> outcome (execute_parallel_by_year self max_concurrent_threads db sched)
                 = Inl ZeroDivisionError)
         \<and> ((\<exists>rows. outcome (execute_parallel_by_year self max_concurrent_threads db sched) = Inr rows)
                \<longleftrightarrow> start_year self \<le> end_year self)"
  using assms years_empty_iff[of self]
  by (auto simp: execute_parallel_by_year_def Let_def years_def)

theorem execute_parallel_by_year_returns_iff_witness:
  "(1::int) \<le> 4
   \<and> end_year (OracleYearPartitionedQuery 2022 2020 :: int year_query)
        < start_year (OracleYearPartitionedQuery 2022 2020 :: int year_query)
   \<and> submitted (execute_parallel_by_year (OracleYearPartitionedQuery 2022 2020) 4 db_2021_empty id) = []
   \<and> outcome (execute_parallel_by_year (OracleYearPartitionedQuery 2022 2020) 4 db_2021_empty id)
        = Inl ZeroDivisionError
   \<and> start_year (OracleYearPartitionedQuery 2020 2022 :: int year_query)
        \<le> end_year (OracleYearPartitionedQuery 2020 2022 :: int year_query)
   \<and> (\<exists>rows. outcome (execute_parallel_by_year (OracleYearPartitionedQuery 2020 2022) 4 db_2021_empty id)
        = Inr rows)"
  using execute_parallel_by_year_returns_iff[of 4 "OracleYearPartitionedQuery 2022 2020" db_2021_empty id]
        execute_parallel_by_year_returns_iff[of 4 "OracleYearPartitionedQuery 2020 2022" db_2021_empty id]
  by (simp add: OracleYearPartitionedQuery_def)

end
